theory Spec2Isabelle
  imports Complex_Main
begin

section \<open>JavaScript values\<close>

text \<open>
  A JavaScript \<open>number\<close> is modelled as a real: the arithmetic of the element
  (a product of a dimension and a scale, a difference of two timestamps) is taken
  exactly, and \<open>NaN\<close> and the infinities are left out.
  A thrown \<open>Error\<close> carries its message; a \<open>TypeError\<close> is what the
  language raises when a property of \<open>undefined\<close> or \<open>null\<close> is read or
  written; \<open>IndexSizeError\<close> is the \<open>DOMException\<close> of that name, which the
  canvas context raises.
\<close>

type_synonym number = real

datatype error = Error string | TypeError string | IndexSizeError string

text \<open>
  Code outside the repository may throw, or reject a promise with, any value: an error
  object, \<open>undefined\<close>, \<open>null\<close>, or any other value, which is given here by the
  text that \<open>e.message\<close> yields in a template literal (\<open>undefined\<close> when the
  value has no such property).
\<close>

datatype thrown = Exception error | ThrownUndefined | ThrownNull | ThrownValue string

section \<open>The browser objects the element touches\<close>

text \<open>A \<open>MediaStream\<close>: \<open>getTracks()\<close> returns its tracks, here their identities.\<close>

record media_stream =
  stream_id :: nat
  tracks :: "nat list"

text \<open>
  The \<open>video\<close> element. \<open>playing_once\<close> holds the listeners that
  \<open>start\<close> registers for the \<open>playing\<close> event with \<open>once: true\<close>; a
  listener is the closure of the handler, which is determined by the \<open>scale\<close> it captured.
\<close>

record video_el =
  videoWidth :: number
  videoHeight :: number
  attributes :: "string \<rightharpoonup> string"
  muted :: bool
  srcObject :: "media_stream option"
  play_calls :: nat
  playing_once :: "number list"

definition new_video :: video_el where
  "new_video = \<lparr>videoWidth = 0, videoHeight = 0, attributes = Map.empty, muted = False,
     srcObject = None, play_calls = 0, playing_once = []\<rparr>"

text \<open>
  A canvas is an object shared by \<open>this.canvas\<close> and by the 2D context obtained from
  it, so canvases live in a store and both fields hold a reference. The bitmap is the
  history of the drawing calls made through the context.
\<close>

datatype canvas_op =
    DrawImage video_el number number number number
  | ClearRect number number number number

text \<open>
  The attributes \<open>width\<close> and \<open>height\<close> of a canvas are of type
  \<open>unsigned long\<close>. A number assigned to them is converted: its fraction is
  dropped, towards zero, and the result is taken modulo \<open>2^32\<close>. The attributes
  reflect content attributes limited to \<open>2147483647\<close>: above it the default of the
  attribute is stored instead, \<open>300\<close> for the width and \<open>150\<close> for the height.
\<close>

definition to_unsigned_long :: "number \<Rightarrow> nat" where
  "to_unsigned_long x = nat ((if x < 0 then - \<lfloor>- x\<rfloor> else \<lfloor>x\<rfloor>) mod 2 ^ 32)"

definition reflect_unsigned_long :: "nat \<Rightarrow> number \<Rightarrow> nat" where
  "reflect_unsigned_long dflt x =
     (let n = to_unsigned_long x in if n \<le> 2147483647 then n else dflt)"

record canvas_el =
  width :: nat
  height :: nat
  style_transform :: string
  style_zIndex :: string
  bitmap :: "canvas_op list"

definition new_canvas :: canvas_el where
  "new_canvas = \<lparr>width = 300, height = 150, style_transform = [], style_zIndex = [],
     bitmap = []\<rparr>"

text \<open>
  The field \<open>ctx\<close> has type \<open>CanvasRenderingContext2D | null | undefined\<close>;
  a context knows the canvas it draws on.
\<close>

datatype ctx_ref = CtxUndefined | CtxNull | Ctx2D nat

text \<open>
  The results of \<open>ctx.getImageData(sx, sy, sw, sh)\<close> and of
  \<open>canvas.toDataURL(type)\<close> are kept symbolic: each records the canvas it was
  read from, as it was at the call, and the arguments of the call.
  \<open>getImageData\<close> throws an \<open>IndexSizeError\<close> when the width or the height it
  is asked for is zero. For a canvas without pixels, one whose width or height is zero,
  \<open>toDataURL\<close> returns the string \<open>data:,\<close>, which is not an image.
\<close>

datatype image_data = GetImageData canvas_el number number number number

datatype data_url = ToDataURL canvas_el string | EmptyDataURL

definition getImageData ::
  "canvas_el \<Rightarrow> number \<Rightarrow> number \<Rightarrow> number \<Rightarrow> number \<Rightarrow> error + image_data" where
  "getImageData cv sx sy sw sh =
     (if sw = 0 \<or> sh = 0 then Inl (IndexSizeError ''The source width or height is 0'')
      else Inr (GetImageData cv sx sy sw sh))"

definition toDataURL :: "canvas_el \<Rightarrow> string \<Rightarrow> data_url" where
  "toDataURL cv type = (if width cv = 0 \<or> height cv = 0 then EmptyDataURL else ToDataURL cv type)"

record html_image =
  src :: data_url

datatype frame = ImageData image_data | HTMLImageElement html_image

text \<open>
  The event names are constants of \<open>events.js\<close>; \<open>fire(name, target, detail)\<close>
  dispatches a custom event on the element, recorded here in the order of dispatch.
\<close>

datatype event_name = EvCaptureClosed | EvCaptureFrame | EvCaptureStarted | EvCaptureStopped

text \<open>
  The callbacks handed to \<open>requestAnimationFrame\<close>: \<open>(now) => update(now)\<close> and
  the first one, which also fires the capture-started event. Both are closures of
  \<open>update\<close>, which captured \<open>scale\<close>.
\<close>

datatype callback = Update number | FirstUpdate number

text \<open>The reticle of the shadow root, when the template has one.\<close>

record reticle_el =
  reticle_attrs :: "string \<rightharpoonup> string"
  cut_out_outer :: "(string \<rightharpoonup> string) option"
  cut_out_inner :: "(string \<rightharpoonup> string) option"
  reticle_box :: "(string \<rightharpoonup> string) option"
  opacity :: string

section \<open>The StreamCapture element\<close>

text \<open>
  The fields of the class, followed by the part of the page the element acts on: the
  canvas store, the children of the shadow root, the reticle, the tracks that were
  stopped, the events fired, the pending animation-frame callbacks and the images whose
  \<open>onload\<close> has not run yet.
\<close>

record stream_capture =
  captureScale :: number
  captureRate :: number
  capturePng :: bool
  flipped :: bool
  paused :: bool
  video :: "video_el option"
  stream :: "media_stream option"
  canvas :: "nat option"
  ctx :: ctx_ref
  lastCapture :: number
  canvases :: "nat \<Rightarrow> canvas_el"
  allocated :: nat
  root_children :: "nat list"
  reticle :: "reticle_el option"
  ended :: "nat set"
  fired :: "(event_name \<times> frame option) list"
  raf :: "callback list"
  loading :: "html_image list"

text \<open>The state a newly constructed element has, on a page with the reticle \<open>r\<close>.\<close>

definition constructed :: "reticle_el option \<Rightarrow> stream_capture" where
  "constructed r = \<lparr>captureScale = 1, captureRate = 0, capturePng = False, flipped = False,
     paused = False, video = None, stream = None, canvas = None, ctx = CtxUndefined,
     lastCapture = - 1, canvases = (\<lambda>_. new_canvas), allocated = 0, root_children = [],
     reticle = r, ended = {}, fired = [], raf = [], loading = []\<rparr>"

text \<open>
  Modelled from the spec: \<open>utils/clamp.js\<close> is not among the sources. The field's
  documentation says the scale is clamped only to \<open>0\<close>, from below, so that a larger
  scale than \<open>1\<close> stays possible.
\<close>

definition clamp :: "number \<Rightarrow> number \<Rightarrow> number" where
  "clamp v lo = max lo v"

definition fire :: "event_name \<Rightarrow> frame option \<Rightarrow> stream_capture \<Rightarrow> stream_capture" where
  "fire n d s = s\<lparr>fired := fired s @ [(n, d)]\<rparr>"

definition requestAnimationFrame :: "callback \<Rightarrow> stream_capture \<Rightarrow> stream_capture" where
  "requestAnimationFrame cb s = s\<lparr>raf := raf s @ [cb]\<rparr>"

definition drawImage ::
  "nat \<Rightarrow> video_el \<Rightarrow> number \<Rightarrow> number \<Rightarrow> number \<Rightarrow> number \<Rightarrow> stream_capture \<Rightarrow> stream_capture" where
  "drawImage k v dx dy dw dh s =
     s\<lparr>canvases := (canvases s)(k := (canvases s k)\<lparr>bitmap := bitmap (canvases s k) @ [DrawImage v dx dy dw dh]\<rparr>)\<rparr>"

definition clearRect ::
  "nat \<Rightarrow> number \<Rightarrow> number \<Rightarrow> number \<Rightarrow> number \<Rightarrow> stream_capture \<Rightarrow> stream_capture" where
  "clearRect k x y w h s =
     s\<lparr>canvases := (canvases s)(k := (canvases s k)\<lparr>bitmap := bitmap (canvases s k) @ [ClearRect x y w h]\<rparr>)\<rparr>"

definition track_stop :: "nat \<Rightarrow> stream_capture \<Rightarrow> stream_capture" where
  "track_stop t s = s\<lparr>ended := insert t (ended s)\<rparr>"

definition canvas_remove :: "nat \<Rightarrow> stream_capture \<Rightarrow> stream_capture" where
  "canvas_remove c s = s\<lparr>root_children := removeAll c (root_children s)\<rparr>"

subsection \<open>initElementsIfNecessary\<close>

text \<open>
  \<open>has2d\<close> says whether \<open>getContext('2d')\<close> returns a context for the canvas just
  created, rather than \<open>null\<close>.
\<close>

definition initElementsIfNecessary ::
  "bool \<Rightarrow> stream_capture \<Rightarrow> error option \<times> stream_capture" where
  "initElementsIfNecessary has2d s =
     (let (e, s1) =
        (if canvas s = None then
           (let c = allocated s;
                sa = s\<lparr>canvas := Some c, canvases := (canvases s)(c := new_canvas),
                       allocated := Suc c,
                       ctx := (if has2d then Ctx2D c else CtxNull)\<rparr>
            in if \<not> has2d then (Some (Error ''Unable to create canvas context''), sa)
               else (None, sa\<lparr>root_children := root_children sa @ [c]\<rparr>))
         else (None, s))
      in if e \<noteq> None then (e, s1)
         else if video s1 = None then (None, s1\<lparr>video := Some new_video\<rparr>)
         else (None, s1))"

subsection \<open>start\<close>

definition start ::
  "bool \<Rightarrow> media_stream \<Rightarrow> stream_capture \<Rightarrow> error option \<times> stream_capture" where
  "start has2d strm s =
     (if stream s \<noteq> None then
        (Some (Error ''Stream already provided. Stop the capture first.''), s)
      else
        (case initElementsIfNecessary has2d (s\<lparr>stream := Some strm\<rparr>) of
           (Some e, s1) \<Rightarrow> (Some e, s1)
         | (None, s1) \<Rightarrow>
             (let scale = clamp (captureScale s1) 0 in
              case video s1 of
                None \<Rightarrow> (Some (TypeError ''video is undefined''), s1)
              | Some v \<Rightarrow>
                  (None, s1\<lparr>video := Some (v\<lparr>
                     attributes := (attributes v)(''playsinline'' \<mapsto> ''playsinline''),
                     muted := True,
                     srcObject := stream s1,
                     play_calls := Suc (play_calls v),
                     playing_once := playing_once v @ [scale]\<rparr>)\<rparr>))))"

subsection \<open>stop\<close>

definition stop :: "stream_capture \<Rightarrow> stream_capture" where
  "stop s =
     (case stream s of
        None \<Rightarrow> s
      | Some strm \<Rightarrow>
          (case ctx s of
             Ctx2D k \<Rightarrow>
               (case canvas s of
                  None \<Rightarrow> s
                | Some c \<Rightarrow>
                    (let s1 = fold track_stop (tracks strm) s;
                         s2 = clearRect k 0 0 (real (width (canvases s1 c)))
                                (real (height (canvases s1 c))) s1;
                         s3 = canvas_remove c s2;
                         s4 = s3\<lparr>video := None, stream := None, canvas := None,
                                 ctx := CtxUndefined\<rparr>
                     in fire EvCaptureStopped None s4))
           | _ \<Rightarrow> s))"

text \<open>\<open>disconnectedCallback\<close> only calls \<open>stop\<close>.\<close>

definition disconnectedCallback :: "stream_capture \<Rightarrow> stream_capture" where
  "disconnectedCallback s = stop s"

subsection \<open>captureFrame\<close>

text \<open>
  \<open>captureFrame\<close> is asynchronous: it returns a promise. Without a context or a canvas
  the promise is rejected. Otherwise the body runs in the executor of the promise, where
  an exception rejects the promise. With \<open>capturePng\<close> the promise is settled by the
  \<open>onload\<close> handler of the image, when the browser runs it: \<open>loading\<close> gets
  the image only if its \<open>src\<close> is an image, that of \<open>data:,\<close> is never loaded
  and no handler is set for its error. Without \<open>capturePng\<close> the promise is
  settled at once.
\<close>

datatype capture_promise = Resolved frame | Rejected error | ResolvedOnLoad html_image

definition captureFrame :: "stream_capture \<Rightarrow> capture_promise \<times> stream_capture" where
  "captureFrame s =
     (case ctx s of
        Ctx2D k \<Rightarrow>
          (case canvas s of
             None \<Rightarrow> (Rejected (Error ''Unable to capture frame''), s)
           | Some c \<Rightarrow>
               if capturePng s then
                 (let imgData = \<lparr>src = toDataURL (canvases s c) ''image/png''\<rparr>
                  in (ResolvedOnLoad imgData,
                      if src imgData = EmptyDataURL then s
                      else s\<lparr>loading := loading s @ [imgData]\<rparr>))
               else
                 (case getImageData (canvases s k) 0 0
                         (real (width (canvases s c))) (real (height (canvases s c))) of
                    Inl e \<Rightarrow> (Rejected e, s)
                  | Inr imgData \<Rightarrow>
                      (let s1 = (if captureRate s \<noteq> 0
                                 then fire EvCaptureFrame (Some (ImageData imgData)) s else s)
                       in (Resolved (ImageData imgData), s1))))
      | _ \<Rightarrow> (Rejected (Error ''Unable to capture frame''), s))"

text \<open>The \<open>onload\<close> handler that \<open>captureFrame\<close> gave the image \<open>imgData\<close>.\<close>

definition image_onload :: "html_image \<Rightarrow> stream_capture \<Rightarrow> frame \<times> stream_capture" where
  "image_onload imgData s =
     (let s1 = s\<lparr>loading := remove1 imgData (loading s)\<rparr>;
          s2 = (if captureRate s1 \<noteq> 0
                then fire EvCaptureFrame (Some (HTMLImageElement imgData)) s1 else s1)
      in (HTMLImageElement imgData, s2))"

subsection \<open>The sampling loop of start\<close>

text \<open>
  \<open>update\<close> is the closure defined in \<open>start\<close>; \<open>scale\<close> is the value it
  captured. The promise of \<open>captureFrame\<close> is dropped, as in the source.
\<close>

definition update :: "number \<Rightarrow> number \<Rightarrow> stream_capture \<Rightarrow> stream_capture" where
  "update scale now s =
     (case video s of
        None \<Rightarrow> s
      | Some v \<Rightarrow>
          (case ctx s of
             Ctx2D k \<Rightarrow>
               (let s1 = (if \<not> paused s
                          then drawImage k v 0 0 (videoWidth v * scale) (videoHeight v * scale) s
                          else s);
                    s2 = (if captureRate s1 \<noteq> 0 \<and> now - lastCapture s1 > captureRate s1
                          then snd (captureFrame (s1\<lparr>lastCapture := now\<rparr>))
                          else s1)
                in requestAnimationFrame (Update scale) s2)
           | _ \<Rightarrow> s))"

fun run_callback :: "number \<Rightarrow> callback \<Rightarrow> stream_capture \<Rightarrow> stream_capture" where
  "run_callback now (Update scale) s = update scale now s"
| "run_callback now (FirstUpdate scale) s = fire EvCaptureStarted None (update scale now s)"

text \<open>
  One animation frame with timestamp \<open>now\<close>: the browser runs the callbacks that were
  pending, in order; what they request is for the next frame.
\<close>

definition animation_frame :: "number \<Rightarrow> stream_capture \<Rightarrow> stream_capture" where
  "animation_frame now s = fold (run_callback now) (raf s) (s\<lparr>raf := []\<rparr>)"

text \<open>
  The number of frame captures so far: frame-captured events fired, and images created
  by \<open>captureFrame\<close> whose \<open>onload\<close> will fire the event.
\<close>

definition captures :: "stream_capture \<Rightarrow> nat" where
  "captures s = length (filter (\<lambda>e. fst e = EvCaptureFrame) (fired s)) + length (loading s)"

text \<open>
  A run of the loop over the animation frames with timestamps \<open>nows\<close>, and the
  timestamps of the frames of that run at which a capture was made.
\<close>

fun sampling_run :: "number list \<Rightarrow> stream_capture \<Rightarrow> stream_capture" where
  "sampling_run [] s = s"
| "sampling_run (now # nows) s = sampling_run nows (animation_frame now s)"

fun capture_ticks :: "number list \<Rightarrow> stream_capture \<Rightarrow> number list" where
  "capture_ticks [] s = []"
| "capture_ticks (now # nows) s =
     (if captures (animation_frame now s) > captures s then [now] else [])
       @ capture_ticks nows (animation_frame now s)"

subsection \<open>The playing handler of start\<close>

definition setReticleOrientation :: "bool \<Rightarrow> stream_capture \<Rightarrow> stream_capture" where
  "setReticleOrientation vertical s =
     (case reticle s of
        None \<Rightarrow> s
      | Some r \<Rightarrow>
          if vertical then
            (let r1 = r\<lparr>reticle_attrs := (reticle_attrs r)(''viewBox'' \<mapsto> ''0 0 100 133'')\<rparr>
             in case cut_out_outer r1 of
                  None \<Rightarrow> s\<lparr>reticle := Some r1\<rparr>
                | Some maskOuter \<Rightarrow>
                    (case cut_out_inner r1 of
                       None \<Rightarrow> s\<lparr>reticle := Some r1\<rparr>
                     | Some maskInner \<Rightarrow>
                         (case reticle_box r1 of
                            None \<Rightarrow> s\<lparr>reticle := Some r1\<rparr>
                          | Some reticleBox \<Rightarrow>
                              s\<lparr>reticle := Some (r1\<lparr>
                                cut_out_outer :=
                                  Some (maskOuter(''width'' \<mapsto> ''100'', ''height'' \<mapsto> ''133'')),
                                cut_out_inner :=
                                  Some (maskInner(''x'' \<mapsto> ''8'', ''y'' \<mapsto> ''24'')),
                                reticle_box :=
                                  Some (reticleBox(''width'' \<mapsto> ''100'', ''height'' \<mapsto> ''133'')),
                                opacity := ''1''\<rparr>)\<rparr>)))
          else s\<lparr>reticle := Some (r\<lparr>opacity := ''1''\<rparr>)\<rparr>)"

text \<open>
  The handler is asynchronous: at each \<open>await\<close> of an animation frame it is suspended
  and the page goes on. \<open>env k\<close> is what happens to the element and the page while
  the handler waits for its \<open>k\<close>-th frame (counted from \<open>0\<close>): the video gets its
  dimensions, fields are assigned, methods are called.

  \<open>wait_dims\<close> is the loop; it returns the error raised in it if any, the number of
  frames awaited, and the state at the exit. Reading \<open>this.video.videoWidth\<close> when
  \<open>this.video\<close> has become \<open>undefined\<close> raises a \<open>TypeError\<close>; the test
  \<open>frameCount > 0\<close> comes first and short-cuts it.
\<close>

function wait_dims ::
  "(nat \<Rightarrow> stream_capture \<Rightarrow> stream_capture) \<Rightarrow> nat \<Rightarrow> int \<Rightarrow> stream_capture
     \<Rightarrow> error option \<times> nat \<times> stream_capture" where
  "wait_dims env k frameCount s =
     (let frameCount' = frameCount - 1;
          s' = env k s
      in if frameCount' > 0 then
           (case video s' of
              None \<Rightarrow> (Some (TypeError ''Cannot read properties of undefined''), Suc k, s')
            | Some v \<Rightarrow>
                if videoWidth v = 0 \<or> videoHeight v = 0
                then wait_dims env (Suc k) frameCount' s'
                else (None, Suc k, s'))
         else (None, Suc k, s'))"
  by pat_completeness auto
termination
  by (relation "measure (\<lambda>(env, k, frameCount, s). nat frameCount)") auto

declare wait_dims.simps [simp del]

text \<open>The rest of the handler, from the check that follows the loop.\<close>

definition playing_finish :: "number \<Rightarrow> stream_capture \<Rightarrow> error option \<times> stream_capture" where
  "playing_finish scale s =
     (case video s of
        None \<Rightarrow> (Some (TypeError ''Cannot read properties of undefined''), s)
      | Some v \<Rightarrow>
          if videoWidth v = 0 \<or> videoHeight v = 0
          then (Some (Error ''Video has width or height of 0''), s)
          else
            (case canvas s of
               None \<Rightarrow> (Some (TypeError ''Cannot set properties of undefined''), s)
             | Some c \<Rightarrow>
                 (let s1 = s\<lparr>canvases := (canvases s)
                             (c := (canvases s c)\<lparr>width :=
                                reflect_unsigned_long 300 (videoWidth v * captureScale s)\<rparr>)\<rparr>;
                      s2 = s1\<lparr>canvases := (canvases s1)
                             (c := (canvases s1 c)\<lparr>height :=
                                reflect_unsigned_long 150 (videoHeight v * captureScale s1)\<rparr>)\<rparr>;
                      s3 = setReticleOrientation
                             (height (canvases s2 c) > width (canvases s2 c)) s2;
                      s4 = (if flipped s3
                            then s3\<lparr>canvases := (canvases s3)
                                   (c := (canvases s3 c)\<lparr>style_transform := ''scaleX(-1)'',
                                                          style_zIndex := ''-1''\<rparr>)\<rparr>
                            else s3)
                  in (None, requestAnimationFrame (FirstUpdate scale) s4))))"

definition playing_handler ::
  "number \<Rightarrow> (nat \<Rightarrow> stream_capture \<Rightarrow> stream_capture) \<Rightarrow> stream_capture
     \<Rightarrow> error option \<times> stream_capture" where
  "playing_handler scale env s =
     (if video s = None \<or> canvas s = None \<or> ctx s = CtxUndefined \<or> ctx s = CtxNull
      then (None, s)
      else
        (case wait_dims env 0 5 s of
           (Some e, n, s1) \<Rightarrow> (Some e, s1)
         | (None, n, s1) \<Rightarrow> playing_finish scale s1))"

text \<open>
  The video of the element starts playing: the listener registered first is removed
  (\<open>once: true\<close>) and run.
\<close>

definition video_playing ::
  "(nat \<Rightarrow> stream_capture \<Rightarrow> stream_capture) \<Rightarrow> stream_capture \<Rightarrow> error option \<times> stream_capture" where
  "video_playing env s =
     (case video s of
        None \<Rightarrow> (None, s)
      | Some v \<Rightarrow>
          (case playing_once v of
             [] \<Rightarrow> (None, s)
           | scale # rest \<Rightarrow>
               playing_handler scale env (s\<lparr>video := Some (v\<lparr>playing_once := rest\<rparr>)\<rparr>)))"

text \<open>The state after the first \<open>n\<close> awaited frames of the handler.\<close>

primrec after_frames ::
  "(nat \<Rightarrow> stream_capture \<Rightarrow> stream_capture) \<Rightarrow> nat \<Rightarrow> stream_capture \<Rightarrow> stream_capture" where
  "after_frames env 0 s = s"
| "after_frames env (Suc n) s = env n (after_frames env n s)"

section \<open>The barcode detector wrapper\<close>

text \<open>
  The image source \<open>'d\<close> and the detected barcodes \<open>'r\<close> are opaque. A detector
  object is given by what its members do: \<open>isReady\<close> is absent (\<open>None\<close>), or a
  promise that resolves (\<open>Some None\<close>) or rejects; \<open>detector_detect\<close> returns the
  barcodes, or throws or rejects with some value.
\<close>

record ('d, 'r) barcode_detector =
  isReady :: "thrown option option"
  detector_detect :: "'d \<Rightarrow> thrown + 'r list"

text \<open>
  The \<open>context\<close> argument: whether it is \<open>window\<close>, and its \<open>BarcodeDetector\<close>
  property: absent, or a constructor that throws or returns a detector.
\<close>

record ('d, 'r) global_scope =
  is_window :: bool
  BarcodeDetector :: "(thrown + ('d, 'r) barcode_detector) option"

datatype debug_level = WARNING

fun message :: "error \<Rightarrow> string" where
  "message (Error m) = m"
| "message (TypeError m) = m"
| "message (IndexSizeError m) = m"

text \<open>
  The state of the module: the variable \<open>detector\<close>, the memoized instance with its
  identity, and what the module did so far: the number of instances it constructed, the
  messages it logged and the scripts it injected.
\<close>

record ('d, 'r) barcode_module =
  detector :: "(nat \<times> ('d, 'r) barcode_detector) option"
  instances :: nat
  logged :: "(string \<times> debug_level \<times> string option) list"
  injected :: "string list"

definition module_loaded :: "('d, 'r) barcode_module" where
  "module_loaded = \<lparr>detector = None, instances = 0, logged = [], injected = []\<rparr>"

definition log ::
  "string \<Rightarrow> debug_level \<Rightarrow> string option \<Rightarrow> ('d, 'r) barcode_module \<Rightarrow> ('d, 'r) barcode_module" where
  "log msg level tag m = m\<lparr>logged := logged m @ [(msg, level, tag)]\<rparr>"

text \<open>
  The first block of \<open>detect\<close>: without a native detector on \<open>window\<close>, the polyfill
  is injected. \<open>injectScript url\<close> rejects, or resolves with \<open>window\<close> as the script
  left it.
\<close>

definition load_polyfill ::
  "(string \<Rightarrow> thrown + ('d, 'r) global_scope) \<Rightarrow> ('d, 'r) global_scope \<Rightarrow> string \<Rightarrow> ('d, 'r) barcode_module
     \<Rightarrow> (thrown + ('d, 'r) global_scope) \<times> ('d, 'r) barcode_module" where
  "load_polyfill injectScript context polyfillPrefix m =
     (if is_window context \<and> BarcodeDetector context = None then
        (let m1 = log ''Native barcode detector unavailable'' WARNING (Some ''BarcodeDetector'') m;
             url = polyfillPrefix @ ''/lib/polyfills/barcode-detector.js''
         in (injectScript url, m1\<lparr>injected := injected m1 @ [url]\<rparr>))
      else (Inr context, m))"

text \<open>The second block: the instance is constructed when there is none, or when forced.\<close>

definition make_detector ::
  "('d, 'r) global_scope \<Rightarrow> bool \<Rightarrow> ('d, 'r) barcode_module \<Rightarrow> thrown option \<times> ('d, 'r) barcode_module" where
  "make_detector context forceNewDetector m =
     (if detector m = None \<or> forceNewDetector then
        (case BarcodeDetector context of
           None \<Rightarrow>
             (Some (Exception (TypeError ''context.BarcodeDetector is not a constructor'')), m)
         | Some (Inl e) \<Rightarrow> (Some e, m)
         | Some (Inr d) \<Rightarrow>
             (None, m\<lparr>detector := Some (instances m, d), instances := Suc (instances m)\<rparr>))
      else (None, m))"

text \<open>
  The \<open>catch\<close> branch, for the value \<open>e\<close> that was thrown. The text of the
  warning is built first, from \<open>e.message\<close>: reading it from \<open>undefined\<close> or
  from \<open>null\<close> raises a \<open>TypeError\<close>, which nothing catches, so that nothing
  is logged and the promise of \<open>detect\<close> is rejected.
\<close>

definition catch_detect ::
  "thrown \<Rightarrow> ('d, 'r) barcode_module \<Rightarrow> (thrown + 'r list) \<times> ('d, 'r) barcode_module" where
  "catch_detect e m =
     (case e of
        Exception err \<Rightarrow> (Inr [], log (''Detection failed: '' @ message err) WARNING None m)
      | ThrownValue txt \<Rightarrow> (Inr [], log (''Detection failed: '' @ txt) WARNING None m)
      | ThrownUndefined \<Rightarrow>
          (Inl (Exception (TypeError ''Cannot read properties of undefined'')), m)
      | ThrownNull \<Rightarrow>
          (Inl (Exception (TypeError ''Cannot read properties of null'')), m))"

text \<open>The rest: the readiness promise is awaited, then the detector is run.\<close>

definition run_detector ::
  "'d \<Rightarrow> ('d, 'r) barcode_module \<Rightarrow> (thrown + 'r list) \<times> ('d, 'r) barcode_module" where
  "run_detector data m =
     (case detector m of
        None \<Rightarrow> (Inl (Exception (TypeError ''Cannot use in operator on undefined'')), m)
      | Some (i, d) \<Rightarrow>
          (case isReady d of
             Some (Some e) \<Rightarrow> (Inl e, m)
           | _ \<Rightarrow>
               (case detector_detect d data of
                  Inr found \<Rightarrow> (Inr found, m)
                | Inl e \<Rightarrow> catch_detect e m)))"

text \<open>
  \<open>detect\<close> returns a promise: \<open>Inr\<close> is the value it resolves to, \<open>Inl\<close> the
  value it rejects with. A call runs to its end before the next one starts.
\<close>

definition detect ::
  "(string \<Rightarrow> thrown + ('d, 'r) global_scope) \<Rightarrow> 'd \<Rightarrow> ('d, 'r) global_scope \<Rightarrow> bool \<Rightarrow> string
     \<Rightarrow> ('d, 'r) barcode_module \<Rightarrow> (thrown + 'r list) \<times> ('d, 'r) barcode_module" where
  "detect injectScript data context forceNewDetector polyfillPrefix m =
     (case load_polyfill injectScript context polyfillPrefix m of
        (Inl e, m1) \<Rightarrow> (Inl e, m1)
      | (Inr context1, m1) \<Rightarrow>
          (case make_detector context1 forceNewDetector m1 of
             (Some e, m2) \<Rightarrow> (Inl e, m2)
           | (None, m2) \<Rightarrow> run_detector data m2))"

text \<open>A call of \<open>detect\<close> with its arguments and what the page does during it.\<close>

record ('d, 'r) detect_call =
  call_inject :: "string \<Rightarrow> thrown + ('d, 'r) global_scope"
  call_data :: 'd
  call_context :: "('d, 'r) global_scope"
  call_force :: bool
  call_prefix :: string

definition detect_call :: "('d, 'r) detect_call \<Rightarrow> ('d, 'r) barcode_module \<Rightarrow> ('d, 'r) barcode_module" where
  "detect_call c m =
     snd (detect (call_inject c) (call_data c) (call_context c) (call_force c) (call_prefix c) m)"

definition detect_calls ::
  "('d, 'r) detect_call list \<Rightarrow> ('d, 'r) barcode_module \<Rightarrow> ('d, 'r) barcode_module" where
  "detect_calls cs m = fold detect_call cs m"

section \<open>Example values\<close>

definition demo_stream :: media_stream where
  "demo_stream = \<lparr>stream_id = 1, tracks = [10, 11]\<rparr>"

text \<open>A new element on which \<open>start\<close> was called once.\<close>

definition demo_started :: stream_capture where
  "demo_started = snd (start True demo_stream (constructed None))"

text \<open>
  The same with \<open>captureScale\<close> set to one half before the call, and the state in
  which the handler of its \<open>playing\<close> listener runs.
\<close>

definition demo_half :: stream_capture where
  "demo_half = snd (start True demo_stream ((constructed None)\<lparr>captureScale := 1 / 2\<rparr>))"

definition demo_half_playing :: stream_capture where
  "demo_half_playing =
     demo_half\<lparr>video := map_option (\<lambda>v. v\<lparr>playing_once := tl (playing_once v)\<rparr>) (video demo_half)\<rparr>"

text \<open>A started element whose loop is scheduled, capturing every 600 ms.\<close>

definition demo_sampling :: stream_capture where
  "demo_sampling = demo_started\<lparr>captureRate := 600, raf := [FirstUpdate 1]\<rparr>"

text \<open>
  Three pages: on the first the video gets its dimensions, and \<open>captureScale\<close> is
  assigned, while the handler waits for its second frame; on the second nothing
  happens; on the third \<open>stop\<close> is called while the handler waits.
\<close>

definition env_late :: "nat \<Rightarrow> stream_capture \<Rightarrow> stream_capture" where
  "env_late k s =
     (if k = 1
      then s\<lparr>captureScale := 2,
             video := map_option (\<lambda>v. v\<lparr>videoWidth := 640, videoHeight := 480\<rparr>) (video s)\<rparr>
      else s)"

text \<open>
  Three more, on which the video gets its dimensions while the handler waits for its
  first frame: 641 by 481; 640 by 480 with \<open>captureScale\<close> assigned \<open>-1\<close>;
  640 by 480.
\<close>

definition env_odd :: "nat \<Rightarrow> stream_capture \<Rightarrow> stream_capture" where
  "env_odd k s =
     s\<lparr>video := map_option (\<lambda>v. v\<lparr>videoWidth := 641, videoHeight := 481\<rparr>) (video s)\<rparr>"




definition env_idle :: "nat \<Rightarrow> stream_capture \<Rightarrow> stream_capture" where
  "env_idle k s = s"

definition env_stop :: "nat \<Rightarrow> stream_capture \<Rightarrow> stream_capture" where
  "env_stop k s = stop s"

text \<open>
  A detector that finds nothing to read in the image \<open>0\<close> and fails on it, a window
  that has this detector natively, a window without one, and a call of \<open>detect\<close>
  on the latter, during which the polyfill provides the former.
\<close>

definition demo_detector :: "(nat, nat) barcode_detector" where
  "demo_detector = \<lparr>isReady = Some None,
     detector_detect =
       (\<lambda>data. if data = 0 then Inl (Exception (Error ''no image'')) else Inr [data])\<rparr>"

text \<open>A window whose detector rejects with no reason, that is with \<open>undefined\<close>.\<close>

definition demo_rejecting_window :: "(nat, nat) global_scope" where
  "demo_rejecting_window = \<lparr>is_window = True,
     BarcodeDetector = Some (Inr \<lparr>isReady = None, detector_detect = (\<lambda>data. Inl ThrownUndefined)\<rparr>)\<rparr>"

definition demo_window :: "(nat, nat) global_scope" where
  "demo_window = \<lparr>is_window = True, BarcodeDetector = Some (Inr demo_detector)\<rparr>"

definition demo_bare_window :: "(nat, nat) global_scope" where
  "demo_bare_window = \<lparr>is_window = True, BarcodeDetector = None\<rparr>"

definition demo_call :: "nat \<Rightarrow> bool \<Rightarrow> (nat, nat) detect_call" where
  "demo_call data force = \<lparr>call_inject = (\<lambda>url. Inr demo_window), call_data = data,
     call_context = demo_bare_window, call_force = force, call_prefix = []\<rparr>"

section \<open>Invariants\<close>

text \<open>
  The canvas of the element has pixels: only then can \<open>captureFrame\<close> read it.
\<close>

definition capturable :: "stream_capture \<Rightarrow> bool" where
  "capturable s =
     (case canvas s of
        None \<Rightarrow> False
      | Some c \<Rightarrow> width (canvases s c) \<noteq> 0 \<and> height (canvases s c) \<noteq> 0)"


text \<open>
  As long as no call forces a new detector, the module has constructed no instance and
  holds none, or has constructed one and holds it.
\<close>

definition memo_inv :: "('d, 'r) barcode_module \<Rightarrow> bool" where
  "memo_inv m =
     (case detector m of None \<Rightarrow> instances m = 0 | Some (i, d) \<Rightarrow> i = 0 \<and> instances m = 1)"

text \<open>The identity of the memoized instance is below the number of instances constructed.\<close>

definition id_inv :: "('d, 'r) barcode_module \<Rightarrow> bool" where
  "id_inv m = (case detector m of None \<Rightarrow> True | Some (i, d) \<Rightarrow> i < instances m)"

section \<open>Properties of start and stop\<close>

lemma fold_track_stop: "fold track_stop ts s = s\<lparr>ended := ended s \<union> set ts\<rparr>"
  by (induction ts arbitrary: s) (auto simp: track_stop_def)

lemma start_constructed:
  "start True strm (constructed r) =
     (None, (constructed r)\<lparr>video := Some (new_video\<lparr>
         attributes := [''playsinline'' \<mapsto> ''playsinline''], muted := True,
         srcObject := Some strm, play_calls := 1, playing_once := [1]\<rparr>),
       stream := Some strm, canvas := Some 0, ctx := Ctx2D 0, allocated := 1,
       root_children := [0]\<rparr>)"
  by (simp add: start_def initElementsIfNecessary_def constructed_def clamp_def new_video_def
      Let_def fun_upd_idem_iff)

lemma start_ok_fields:
  assumes "canvas s = None" and "start has2d strm s = (None, s1)"
  shows "has2d \<and> stream s = None \<and> stream s1 = Some strm \<and>
         canvas s1 = Some (allocated s) \<and> ctx s1 = Ctx2D (allocated s)"
  using assms
  by (auto simp: start_def initElementsIfNecessary_def Let_def split: if_splits option.splits)

lemma stop_fields:
  assumes "stream s = Some strm" and "canvas s = Some c" and "ctx s = Ctx2D k"
  shows "video (stop s) = None \<and> stream (stop s) = None \<and>
         canvas (stop s) = None \<and> ctx (stop s) = CtxUndefined"
  using assms
  by (simp add: stop_def fold_track_stop clearRect_def canvas_remove_def fire_def Let_def)

lemma start_idle_ok:
  assumes "stream s = None" and "canvas s = None"
  shows "fst (start True strm s) = None"
  using assms
  by (simp add: start_def initElementsIfNecessary_def Let_def split: option.splits)

lemma start_idle_not_guard:
  assumes "stream s = None"
  shows "fst (start h strm s) \<noteq> Some (Error ''Stream already provided. Stop the capture first.'')"
  using assms
  by (auto simp: start_def initElementsIfNecessary_def Let_def split: option.splits if_splits)

text \<open>
  Claim C2. When the field \<open>stream\<close> of the element is set, \<open>start\<close> throws the
  error \<open>Stream already provided. Stop the capture first.\<close>, whatever stream it is given,
  and the element and the page are as they were before the call.
\<close>

theorem start_twice_throws:
  "stream s \<noteq> None \<Longrightarrow>
   start has2d strm s = (Some (Error ''Stream already provided. Stop the capture first.''), s)"
  by (simp add: start_def)

theorem start_twice_throws_witness:
  "stream demo_started \<noteq> None \<and>
   start True \<lparr>stream_id = 2, tracks = [20]\<rparr> demo_started =
     (Some (Error ''Stream already provided. Stop the capture first.''), demo_started)"
  using start_twice_throws [of demo_started True "\<lparr>stream_id = 2, tracks = [20]\<rparr>"]
  by (simp add: demo_started_def start_constructed)

text \<open>
  Claim C5. On an element with a stream, a canvas and the 2D context of that canvas,
  \<open>stop\<close> stops every track of the stream (and no other), clears the rectangle from
  the origin to the width and height of the canvas, resets \<open>video\<close>, \<open>stream\<close>,
  \<open>canvas\<close> and \<open>ctx\<close> to \<open>undefined\<close>, and fires the capture-stopped event.
\<close>

theorem stop_active:
  assumes "stream s = Some strm" and "canvas s = Some c" and "ctx s = Ctx2D c"
  shows "ended (stop s) = ended s \<union> set (tracks strm) \<and>
         bitmap (canvases (stop s) c) =
           bitmap (canvases s c) @
             [ClearRect 0 0 (real (width (canvases s c))) (real (height (canvases s c)))] \<and>
         video (stop s) = None \<and> stream (stop s) = None \<and>
         canvas (stop s) = None \<and> ctx (stop s) = CtxUndefined \<and>
         fired (stop s) = fired s @ [(EvCaptureStopped, None)]"
  using assms
  by (simp add: stop_def fold_track_stop clearRect_def canvas_remove_def fire_def Let_def)

theorem stop_active_witness:
  "stream demo_started = Some demo_stream \<and> canvas demo_started = Some 0 \<and>
   ctx demo_started = Ctx2D 0 \<and>
   ended (stop demo_started) = {10, 11} \<and>
   bitmap (canvases (stop demo_started) 0) = [ClearRect 0 0 300 150] \<and>
   video (stop demo_started) = None \<and> stream (stop demo_started) = None \<and>
   canvas (stop demo_started) = None \<and> ctx (stop demo_started) = CtxUndefined \<and>
   fired (stop demo_started) = [(EvCaptureStopped, None)]"
proof -
  have a: "stream demo_started = Some demo_stream" "canvas demo_started = Some 0"
    "ctx demo_started = Ctx2D 0"
    by (simp_all add: demo_started_def start_constructed)
  have b: "ended demo_started = {}" "fired demo_started = []"
    "canvases demo_started 0 = new_canvas"
    by (simp_all add: demo_started_def start_constructed) (simp_all add: constructed_def)
  from stop_active [OF a] a b show ?thesis
    by (auto simp: demo_stream_def new_canvas_def)
qed

text \<open>
  Claim C9. Without a stream, or without a context, or without a canvas, \<open>stop\<close>
  returns at its guard: the element and the page are unchanged (no field is assigned, no
  track stopped, no event fired) and nothing is thrown. \<open>disconnectedCallback\<close> only
  calls \<open>stop\<close>, so it is as harmless there.
\<close>

theorem stop_inactive_noop:
  "stream s = None \<or> ctx s = CtxUndefined \<or> ctx s = CtxNull \<or> canvas s = None \<Longrightarrow>
   stop s = s \<and> disconnectedCallback s = s"
  by (auto simp: stop_def disconnectedCallback_def split: option.splits ctx_ref.splits)

theorem stop_inactive_noop_witness:
  "(stream (constructed None) = None \<or> ctx (constructed None) = CtxUndefined
      \<or> ctx (constructed None) = CtxNull \<or> canvas (constructed None) = None) \<and>
   stop (constructed None) = constructed None \<and>
   disconnectedCallback (constructed None) = constructed None"
  using stop_inactive_noop [of "constructed None"]
  by (simp add: constructed_def)

text \<open>
  Claim C10. Take an element that holds no canvas, as after its construction or after
  \<open>stop\<close>. After a \<open>start\<close> that did not throw and a \<open>stop\<close>, the fields
  \<open>video\<close>, \<open>stream\<close>, \<open>canvas\<close> and \<open>ctx\<close> are \<open>undefined\<close> again.
  A further \<open>start\<close>, with any stream, does not throw where the page gives a 2D
  context as it did for the first one, and in no case throws the error of the guard.
\<close>

theorem start_stop_restart:
  assumes "canvas s = None" and "start has2d strm s = (None, s1)"
  shows "video (stop s1) = None \<and> stream (stop s1) = None \<and>
         canvas (stop s1) = None \<and> ctx (stop s1) = CtxUndefined \<and>
         (\<forall>strm'. fst (start has2d strm' (stop s1)) = None) \<and>
         (\<forall>h strm'. fst (start h strm' (stop s1)) \<noteq>
            Some (Error ''Stream already provided. Stop the capture first.''))"
proof -
  from start_ok_fields [OF assms]
  have h: has2d and f: "stream s1 = Some strm" "canvas s1 = Some (allocated s)"
    "ctx s1 = Ctx2D (allocated s)"
    by simp_all
  from stop_fields [OF f]
  have g: "video (stop s1) = None" "stream (stop s1) = None" "canvas (stop s1) = None"
    "ctx (stop s1) = CtxUndefined"
    by simp_all
  from h g show ?thesis
    by (simp add: start_idle_ok start_idle_not_guard)
qed

theorem start_stop_restart_witness:
  "canvas (constructed None) = None \<and>
   start True demo_stream (constructed None) = (None, demo_started) \<and>
   video (stop demo_started) = None \<and> stream (stop demo_started) = None \<and>
   canvas (stop demo_started) = None \<and> ctx (stop demo_started) = CtxUndefined \<and>
   fst (start True \<lparr>stream_id = 2, tracks = [20]\<rparr> (stop demo_started)) = None"
proof -
  have a: "canvas (constructed None) = None"
    by (simp add: constructed_def)
  have b: "start True demo_stream (constructed None) = (None, demo_started)"
    by (simp add: demo_started_def start_constructed)
  from start_stop_restart [OF a b] a b show ?thesis
    by blast
qed

section \<open>Properties of the canvas attributes\<close>


lemma reflect_unsigned_long_exact:
  assumes "0 \<le> i" and "i \<le> 2147483647"
  shows "real (reflect_unsigned_long dflt (real_of_int i)) = real_of_int i"
proof -
  from assms have m: "i mod 2 ^ 32 = i"
    by (intro mod_pos_pos_trivial) simp_all
  from assms have n: "nat i \<le> 2147483647"
    by linarith
  from assms m n show ?thesis
    by (simp add: reflect_unsigned_long_def to_unsigned_long_def Let_def)
qed

section \<open>Properties of captureFrame\<close>






section \<open>Properties of the playing handler\<close>

lemma wait_dims_general:
  assumes "s = after_frames env k s0" and "wait_dims env k fc s = (e, n, s1)"
  shows "k < n \<and> (int n \<le> int k + fc \<or> n = Suc k) \<and> s1 = after_frames env n s0 \<and>
     (\<forall>j. k < j \<and> j < n \<longrightarrow>
        (\<exists>v. video (after_frames env j s0) = Some v \<and> (videoWidth v = 0 \<or> videoHeight v = 0))) \<and>
     (e = None \<and> int n < int k + fc \<longrightarrow>
        (\<exists>v. video s1 = Some v \<and> videoWidth v \<noteq> 0 \<and> videoHeight v \<noteq> 0)) \<and>
     (e \<noteq> None \<longrightarrow> video s1 = None \<and> int n < int k + fc)"
  using assms
proof (induction env k fc s rule: wait_dims.induct)
  case (1 env k frameCount s)
  let ?s' = "env k s"
  have s': "?s' = after_frames env (Suc k) s0"
    using "1.prems"(1) by simp
  show ?case
  proof (cases "frameCount - 1 > 0")
    case False
    with "1.prems"(2) have "e = None" "n = Suc k" "s1 = ?s'"
      by (simp_all add: wait_dims.simps [of env k frameCount s] Let_def)
    with s' False show ?thesis
      by auto
  next
    case pos: True
    show ?thesis
    proof (cases "video ?s'")
      case None
      with pos "1.prems"(2) have "e \<noteq> None" "n = Suc k" "s1 = ?s'"
        by (auto simp: wait_dims.simps [of env k frameCount s] Let_def)
      with s' None pos show ?thesis
        by auto
    next
      case (Some v)
      show ?thesis
      proof (cases "videoWidth v = 0 \<or> videoHeight v = 0")
        case False
        with pos Some "1.prems"(2) have "e = None" "n = Suc k" "s1 = ?s'"
          by (simp_all add: wait_dims.simps [of env k frameCount s] Let_def)
        with s' Some False pos show ?thesis
          by auto
      next
        case zero: True
        with pos Some "1.prems"(2)
        have rec: "wait_dims env (Suc k) (frameCount - 1) ?s' = (e, n, s1)"
          by (simp add: wait_dims.simps [of env k frameCount s] Let_def)
        note ih = "1.IH" [OF refl refl pos Some zero s' rec]
        have "\<And>j. k < j \<Longrightarrow> j < n \<Longrightarrow>
                \<exists>v. video (after_frames env j s0) = Some v \<and> (videoWidth v = 0 \<or> videoHeight v = 0)"
        proof -
          fix j assume "k < j" "j < n"
          show "\<exists>v. video (after_frames env j s0) = Some v \<and> (videoWidth v = 0 \<or> videoHeight v = 0)"
          proof (cases "j = Suc k")
            case True
            with s' Some zero show ?thesis by auto
          next
            case False
            with \<open>k < j\<close> have "Suc k < j" by simp
            with ih \<open>j < n\<close> show ?thesis by blast
          qed
        qed
        moreover from ih have "k < n" by simp
        moreover from ih pos have "int n \<le> int k + frameCount \<or> n = Suc k" by auto
        moreover from ih have "e = None \<and> int n < int k + frameCount \<longrightarrow>
          (\<exists>v. video s1 = Some v \<and> videoWidth v \<noteq> 0 \<and> videoHeight v \<noteq> 0)"
          by auto
        moreover from ih have "e \<noteq> None \<longrightarrow> video s1 = None \<and> int n < int k + frameCount"
          by auto
        moreover from ih have "s1 = after_frames env n s0" by simp
        ultimately show ?thesis by blast
      qed
    qed
  qed
qed



lemma demo_half_eq:
  "start True demo_stream ((constructed None)\<lparr>captureScale := 1 / 2\<rparr>) = (None, demo_half) \<and>
   video demo_half = Some (new_video\<lparr>
         attributes := [''playsinline'' \<mapsto> ''playsinline''], muted := True,
         srcObject := Some demo_stream, play_calls := 1, playing_once := [1 / 2]\<rparr>) \<and>
   canvas demo_half = Some 0 \<and> ctx demo_half = Ctx2D 0 \<and> captureScale demo_half = 1 / 2"
  by (simp add: demo_half_def start_def initElementsIfNecessary_def constructed_def clamp_def
      new_video_def Let_def)

lemma demo_half_playing_eq:
  "video_playing env demo_half = playing_handler (1 / 2) env demo_half_playing \<and>
   video demo_half_playing = Some (new_video\<lparr>
         attributes := [''playsinline'' \<mapsto> ''playsinline''], muted := True,
         srcObject := Some demo_stream, play_calls := 1, playing_once := []\<rparr>) \<and>
   canvas demo_half_playing = Some 0 \<and> ctx demo_half_playing = Ctx2D 0 \<and>
   stream demo_half_playing = Some demo_stream \<and> raf demo_half_playing = []"
  by (simp add: video_playing_def demo_half_playing_def demo_half_eq)
    (simp add: demo_half_def start_def initElementsIfNecessary_def constructed_def Let_def)

lemma wait_late_playing:
  "wait_dims env_late 0 5 demo_half_playing = (None, 2, env_late 1 demo_half_playing)"
  by (simp add: wait_dims.simps [of env_late] demo_half_playing_eq env_late_def new_video_def Let_def)

lemma wait_idle_playing:
  "wait_dims env_idle 0 5 demo_half_playing = (None, 5, demo_half_playing)"
  by (simp add: wait_dims.simps [of env_idle] demo_half_playing_eq env_idle_def new_video_def Let_def)

lemma wait_stop_playing:
  "wait_dims env_stop 0 5 demo_half_playing =
     (Some (TypeError ''Cannot read properties of undefined''), 1, stop demo_half_playing)"
proof -
  have "video (stop demo_half_playing) = None"
    using stop_fields [of demo_half_playing demo_stream 0 0]
    by (simp add: demo_half_playing_eq)
  then show ?thesis
    by (simp add: wait_dims.simps [of env_stop] env_stop_def Let_def)
qed


lemma wait_odd_playing:
  "wait_dims env_odd 0 5 demo_half_playing = (None, 1, env_odd 0 demo_half_playing)"
  by (simp add: wait_dims.simps [of env_odd] demo_half_playing_eq env_odd_def new_video_def Let_def)





text \<open>
  Claim C8. The loop of the handler that waits for the dimensions of the video ends on
  every page: it awaits at least one and at most five animation frames, \<open>frameCount\<close>
  going down by one at each. It goes on to a further frame only when a dimension of the
  video was zero, so it leaves at the first frame at which both are non-zero, or at
  which the video is gone, in which case a \<open>TypeError\<close> is raised. When a dimension
  is still zero at the exit, the handler throws the error \<open>Video has width or height of 0\<close>.
\<close>

theorem dimension_wait_terminates:
  "\<exists>e n s1. wait_dims env 0 5 s = (e, n, s1) \<and> 1 \<le> n \<and> n \<le> 5 \<and>
     s1 = after_frames env n s \<and>
     (\<forall>j. 1 \<le> j \<and> j < n \<longrightarrow>
        (\<exists>v. video (after_frames env j s) = Some v \<and> (videoWidth v = 0 \<or> videoHeight v = 0))) \<and>
     (e = None \<and> n < 5 \<longrightarrow>
        (\<exists>v. video s1 = Some v \<and> videoWidth v \<noteq> 0 \<and> videoHeight v \<noteq> 0)) \<and>
     (e \<noteq> None \<longrightarrow> video s1 = None \<and> n < 5) \<and>
     (video s \<noteq> None \<and> canvas s \<noteq> None \<and> ctx s \<noteq> CtxUndefined \<and> ctx s \<noteq> CtxNull \<and>
      e = None \<and> (\<exists>v. video s1 = Some v \<and> (videoWidth v = 0 \<or> videoHeight v = 0)) \<longrightarrow>
        playing_handler scale env s = (Some (Error ''Video has width or height of 0''), s1))"
proof -
  obtain e n s1 where w: "wait_dims env 0 5 s = (e, n, s1)"
    by (cases "wait_dims env 0 5 s") auto
  have s: "s = after_frames env 0 s"
    by simp
  note g = wait_dims_general [OF s w]
  have "playing_handler scale env s = (Some (Error ''Video has width or height of 0''), s1)"
    if "video s \<noteq> None \<and> canvas s \<noteq> None \<and> ctx s \<noteq> CtxUndefined \<and> ctx s \<noteq> CtxNull \<and>
      e = None \<and> (\<exists>v. video s1 = Some v \<and> (videoWidth v = 0 \<or> videoHeight v = 0))"
    using that w by (auto simp: playing_handler_def playing_finish_def)
  moreover from g have "1 \<le> n \<and> n \<le> 5" by auto
  moreover from g have "\<forall>j. 1 \<le> j \<and> j < n \<longrightarrow>
        (\<exists>v. video (after_frames env j s) = Some v \<and> (videoWidth v = 0 \<or> videoHeight v = 0))"
    by auto
  moreover from g have "e = None \<and> n < 5 \<longrightarrow>
        (\<exists>v. video s1 = Some v \<and> videoWidth v \<noteq> 0 \<and> videoHeight v \<noteq> 0)"
    by auto
  moreover from g have "e \<noteq> None \<longrightarrow> video s1 = None \<and> n < 5"
    by auto
  moreover from g have "s1 = after_frames env n s" by simp
  ultimately show ?thesis
    using w by blast
qed

theorem dimension_wait_terminates_witness:
  "wait_dims env_late 0 5 demo_half_playing = (None, 2, env_late 1 demo_half_playing) \<and>
   (\<exists>v. video (env_late 1 demo_half_playing) = Some v \<and> videoWidth v = 640 \<and> videoHeight v = 480) \<and>
   wait_dims env_idle 0 5 demo_half_playing = (None, 5, demo_half_playing) \<and>
   playing_handler (1 / 2) env_idle demo_half_playing =
     (Some (Error ''Video has width or height of 0''), demo_half_playing) \<and>
   wait_dims env_stop 0 5 demo_half_playing =
     (Some (TypeError ''Cannot read properties of undefined''), 1, stop demo_half_playing)"
proof -
  have z: "\<exists>v. video demo_half_playing = Some v \<and> (videoWidth v = 0 \<or> videoHeight v = 0)"
    by (simp add: demo_half_playing_eq new_video_def)
  have g: "video demo_half_playing \<noteq> None \<and> canvas demo_half_playing \<noteq> None \<and>
           ctx demo_half_playing \<noteq> CtxUndefined \<and> ctx demo_half_playing \<noteq> CtxNull"
    by (simp add: demo_half_playing_eq)
  have l: "\<exists>v. video (env_late 1 demo_half_playing) = Some v \<and> videoWidth v = 640 \<and>
             videoHeight v = 480"
    by (simp add: env_late_def demo_half_playing_eq)
  from dimension_wait_terminates [of env_idle demo_half_playing "1 / 2"] wait_idle_playing z g
  have "playing_handler (1 / 2) env_idle demo_half_playing =
          (Some (Error ''Video has width or height of 0''), demo_half_playing)"
    by auto
  with wait_late_playing wait_idle_playing wait_stop_playing l show ?thesis
    by simp
qed

section \<open>Properties of the sampling loop\<close>

lemma captureFrame_effect:
  "captureRate (snd (captureFrame s)) = captureRate s \<and>
   capturable (snd (captureFrame s)) = capturable s \<and>
   lastCapture (snd (captureFrame s)) = lastCapture s \<and>
   (captureRate s = 0 \<longrightarrow> fired (snd (captureFrame s)) = fired s) \<and>
   (\<not> capturable s \<or> ctx s = CtxUndefined \<or> ctx s = CtxNull \<longrightarrow> snd (captureFrame s) = s) \<and>
   (captureRate s \<noteq> 0 \<and> capturable s \<and> ctx s \<noteq> CtxUndefined \<and> ctx s \<noteq> CtxNull \<longrightarrow>
      captures (snd (captureFrame s)) = Suc (captures s))"
  by (auto simp: captureFrame_def capturable_def getImageData_def toDataURL_def captures_def
      fire_def Let_def split: ctx_ref.splits option.splits)

lemma captureFrame_grows:
  "fired (snd (captureFrame s)) \<noteq> fired s \<or> loading (snd (captureFrame s)) \<noteq> loading s \<Longrightarrow>
   captures s < captures (snd (captureFrame s))"
  by (auto simp: captureFrame_def getImageData_def toDataURL_def captures_def
      fire_def Let_def split: ctx_ref.splits option.splits if_splits)

lemma drawImage_effect:
  "captureRate (drawImage k v dx dy dw dh s) = captureRate s \<and>
   capturable (drawImage k v dx dy dw dh s) = capturable s \<and>
   lastCapture (drawImage k v dx dy dw dh s) = lastCapture s \<and>
   ctx (drawImage k v dx dy dw dh s) = ctx s \<and>
   fired (drawImage k v dx dy dw dh s) = fired s \<and>
   loading (drawImage k v dx dy dw dh s) = loading s \<and>
   captures (drawImage k v dx dy dw dh s) = captures s"
  by (auto simp: drawImage_def capturable_def captures_def split: option.splits)

text \<open>The state in which \<open>update\<close> decides whether to capture.\<close>

lemma update_drawn:
  assumes "video s = Some v" and "ctx s = Ctx2D k"
  shows "\<exists>s1. captureRate s1 = captureRate s \<and> capturable s1 = capturable s \<and>
           lastCapture s1 = lastCapture s \<and> ctx s1 = ctx s \<and> fired s1 = fired s \<and>
           loading s1 = loading s \<and> captures s1 = captures s \<and>
           update scale now s =
             requestAnimationFrame (Update scale)
               (if captureRate s \<noteq> 0 \<and> now - lastCapture s > captureRate s
                then snd (captureFrame (s1\<lparr>lastCapture := now\<rparr>)) else s1)"
proof (cases "paused s")
  case True
  with assms show ?thesis
    by (intro exI [of _ s]) (simp add: update_def)
next
  case False
  with assms drawImage_effect [of k v 0 0 "videoWidth v * scale" "videoHeight v * scale" s]
  show ?thesis
    by (intro exI [of _ "drawImage k v 0 0 (videoWidth v * scale) (videoHeight v * scale) s"])
      (simp add: update_def Let_def)
qed

lemma touch_lastCapture:
  "captureRate (s\<lparr>lastCapture := now\<rparr>) = captureRate s \<and>
   capturable (s\<lparr>lastCapture := now\<rparr>) = capturable s \<and>
   ctx (s\<lparr>lastCapture := now\<rparr>) = ctx s \<and> fired (s\<lparr>lastCapture := now\<rparr>) = fired s \<and>
   loading (s\<lparr>lastCapture := now\<rparr>) = loading s \<and>
   captures (s\<lparr>lastCapture := now\<rparr>) = captures s"
  by (auto simp: capturable_def captures_def split: option.splits)

lemma requestAnimationFrame_effect:
  "captureRate (requestAnimationFrame cb s) = captureRate s \<and>
   capturable (requestAnimationFrame cb s) = capturable s \<and>
   lastCapture (requestAnimationFrame cb s) = lastCapture s \<and>
   fired (requestAnimationFrame cb s) = fired s \<and>
   loading (requestAnimationFrame cb s) = loading s \<and>
   captures (requestAnimationFrame cb s) = captures s"
  by (auto simp: requestAnimationFrame_def capturable_def captures_def split: option.splits)

lemma update_idle:
  "video s = None \<or> ctx s = CtxUndefined \<or> ctx s = CtxNull \<Longrightarrow> update scale now s = s"
  by (auto simp: update_def split: option.splits ctx_ref.splits)

lemma update_skip:
  assumes "\<not> (captureRate s \<noteq> 0 \<and> now - lastCapture s > captureRate s)"
  shows "fired (update scale now s) = fired s \<and> loading (update scale now s) = loading s \<and>
         lastCapture (update scale now s) = lastCapture s \<and>
         captures (update scale now s) = captures s"
proof (cases "video s = None \<or> ctx s = CtxUndefined \<or> ctx s = CtxNull")
  case True
  then show ?thesis
    by (simp add: update_idle)
next
  case False
  then obtain v k where "video s = Some v" "ctx s = Ctx2D k"
    by (cases "ctx s") auto
  from update_drawn [OF this, of scale now] assms show ?thesis
    by (auto simp: requestAnimationFrame_effect)
qed

lemma update_capture:
  assumes "video s \<noteq> None" and "ctx s = Ctx2D k"
    and "captureRate s \<noteq> 0" and "now - lastCapture s > captureRate s"
  shows "lastCapture (update scale now s) = now \<and>
         (\<not> capturable s \<longrightarrow> captures (update scale now s) = captures s) \<and>
         (capturable s \<longrightarrow> captures (update scale now s) = Suc (captures s))"
proof -
  from assms obtain v where v: "video s = Some v"
    by auto
  from update_drawn [OF v assms(2), of scale now] assms(3,4)
  obtain s1 where s1: "captureRate s1 = captureRate s" "capturable s1 = capturable s"
      "ctx s1 = ctx s" "captures s1 = captures s"
    and u: "update scale now s =
              requestAnimationFrame (Update scale) (snd (captureFrame (s1\<lparr>lastCapture := now\<rparr>)))"
    by auto
  let ?t = "s1\<lparr>lastCapture := now\<rparr>"
  from s1 assms touch_lastCapture [of now s1]
  have t: "captureRate ?t \<noteq> 0" "capturable ?t = capturable s" "ctx ?t = Ctx2D k"
    "captures ?t = captures s" "lastCapture ?t = now"
    by simp_all
  from captureFrame_effect [of ?t] t
  have "lastCapture (snd (captureFrame ?t)) = now \<and>
        (\<not> capturable s \<longrightarrow> captures (snd (captureFrame ?t)) = captures s) \<and>
        (capturable s \<longrightarrow> captures (snd (captureFrame ?t)) = Suc (captures s))"
    by auto
  with u show ?thesis
    by (simp add: requestAnimationFrame_effect)
qed

lemma update_frame:
  "captureRate (update scale now s) = captureRate s \<and>
   capturable (update scale now s) = capturable s"
proof (cases "video s = None \<or> ctx s = CtxUndefined \<or> ctx s = CtxNull")
  case True
  then show ?thesis
    by (simp add: update_idle)
next
  case False
  then obtain v k where "video s = Some v" "ctx s = Ctx2D k"
    by (cases "ctx s") auto
  from update_drawn [OF this, of scale now]
  obtain s1 where s1: "captureRate s1 = captureRate s" "capturable s1 = capturable s"
    and u: "update scale now s =
             requestAnimationFrame (Update scale)
               (if captureRate s \<noteq> 0 \<and> now - lastCapture s > captureRate s
                then snd (captureFrame (s1\<lparr>lastCapture := now\<rparr>)) else s1)"
    by auto
  from s1 captureFrame_effect [of "s1\<lparr>lastCapture := now\<rparr>"] touch_lastCapture [of now s1]
  show ?thesis
    unfolding u by (simp add: requestAnimationFrame_effect)
qed

lemma update_fired:
  assumes "fired (update scale now s) \<noteq> fired s \<or> loading (update scale now s) \<noteq> loading s"
  shows "captures (update scale now s) > captures s"
proof (cases "video s = None \<or> ctx s = CtxUndefined \<or> ctx s = CtxNull")
  case True
  with assms show ?thesis
    by (simp add: update_idle)
next
  case False
  then obtain v k where "video s = Some v" "ctx s = Ctx2D k"
    by (cases "ctx s") auto
  from update_drawn [OF this, of scale now]
  obtain s1 where s1: "fired s1 = fired s" "loading s1 = loading s" "captures s1 = captures s"
    and u: "update scale now s =
             requestAnimationFrame (Update scale)
               (if captureRate s \<noteq> 0 \<and> now - lastCapture s > captureRate s
                then snd (captureFrame (s1\<lparr>lastCapture := now\<rparr>)) else s1)"
    by auto
  let ?t = "s1\<lparr>lastCapture := now\<rparr>"
  show ?thesis
  proof (cases "captureRate s \<noteq> 0 \<and> now - lastCapture s > captureRate s")
    case False
    with assms u s1 show ?thesis
      by (simp add: requestAnimationFrame_effect)
  next
    case True
    with assms u s1 touch_lastCapture [of now s1]
    have "fired (snd (captureFrame ?t)) \<noteq> fired ?t \<or> loading (snd (captureFrame ?t)) \<noteq> loading ?t"
      by (simp add: requestAnimationFrame_effect)
    then have "captures ?t < captures (snd (captureFrame ?t))"
      by (rule captureFrame_grows)
    with True u s1 touch_lastCapture [of now s1] show ?thesis
      by (simp add: requestAnimationFrame_effect)
  qed
qed

text \<open>What one callback does to the quantities the rate limit is about.\<close>

lemma update_step:
  "captureRate (update scale now s) = captureRate s \<and>
   capturable (update scale now s) = capturable s \<and>
   captures s \<le> captures (update scale now s) \<and>
   (\<not> capturable s \<longrightarrow> captures (update scale now s) = captures s) \<and>
   (captures s < captures (update scale now s) \<longrightarrow>
      captureRate s \<noteq> 0 \<and> now - lastCapture s > captureRate s \<and>
      lastCapture (update scale now s) = now) \<and>
   (capturable s \<and> captures (update scale now s) = captures s \<longrightarrow>
      lastCapture (update scale now s) = lastCapture s)"
proof (cases "captureRate s \<noteq> 0 \<and> now - lastCapture s > captureRate s")
  case False
  with update_skip [OF False, of scale] update_frame [of scale now s] show ?thesis
    by simp
next
  case cond: True
  show ?thesis
  proof (cases "video s = None \<or> ctx s = CtxUndefined \<or> ctx s = CtxNull")
    case True
    then show ?thesis
      by (simp add: update_idle)
  next
    case False
    then obtain k where "video s \<noteq> None" "ctx s = Ctx2D k"
      by (cases "ctx s") auto
    with cond update_capture [of s k now scale] update_frame [of scale now s] show ?thesis
      by auto
  qed
qed

lemma run_callback_step:
  "captureRate (run_callback now cb s) = captureRate s \<and>
   capturable (run_callback now cb s) = capturable s \<and>
   captures s \<le> captures (run_callback now cb s) \<and>
   (\<not> capturable s \<longrightarrow> captures (run_callback now cb s) = captures s) \<and>
   (captures s < captures (run_callback now cb s) \<longrightarrow>
      captureRate s \<noteq> 0 \<and> now - lastCapture s > captureRate s \<and>
      lastCapture (run_callback now cb s) = now) \<and>
   (capturable s \<and> captures (run_callback now cb s) = captures s \<longrightarrow>
      lastCapture (run_callback now cb s) = lastCapture s)"
proof (cases cb)
  case (Update scale)
  with update_step [of scale now s] show ?thesis by simp
next
  case (FirstUpdate scale)
  have "captures (fire EvCaptureStarted None t) = captures t \<and>
        capturable (fire EvCaptureStarted None t) = capturable t" for t
    by (auto simp: captures_def capturable_def fire_def split: option.splits)
  with FirstUpdate update_step [of scale now s] show ?thesis
    by (simp add: fire_def)
qed

lemma rate_rel_trans:
  fixes c0 c1 c2 :: nat and r now l0 l1 l2 :: real and cp :: bool
  assumes "c0 \<le> c1 \<and> (\<not> cp \<longrightarrow> c1 = c0) \<and>
           (c0 < c1 \<longrightarrow> r \<noteq> 0 \<and> now - l0 > r \<and> l1 = now) \<and>
           (cp \<and> c1 = c0 \<longrightarrow> l1 = l0)"
    and "c1 \<le> c2 \<and> (\<not> cp \<longrightarrow> c2 = c1) \<and>
           (c1 < c2 \<longrightarrow> r \<noteq> 0 \<and> now - l1 > r \<and> l2 = now) \<and>
           (cp \<and> c2 = c1 \<longrightarrow> l2 = l1)"
  shows "c0 \<le> c2 \<and> (\<not> cp \<longrightarrow> c2 = c0) \<and>
           (c0 < c2 \<longrightarrow> r \<noteq> 0 \<and> now - l0 > r \<and> l2 = now) \<and>
           (cp \<and> c2 = c0 \<longrightarrow> l2 = l0)"
proof (cases cp)
  case False
  with assms show ?thesis by simp
next
  case True
  with assms show ?thesis
    by (cases "c0 < c1"; cases "c1 < c2") auto
qed

lemma fold_callbacks_frame:
  "captureRate (fold (run_callback now) cbs s) = captureRate s \<and>
   capturable (fold (run_callback now) cbs s) = capturable s"
  by (induction cbs arbitrary: s) (simp_all add: run_callback_step)

lemma fold_callbacks_step:
  "captures s \<le> captures (fold (run_callback now) cbs s) \<and>
   (\<not> capturable s \<longrightarrow> captures (fold (run_callback now) cbs s) = captures s) \<and>
   (captures s < captures (fold (run_callback now) cbs s) \<longrightarrow>
      captureRate s \<noteq> 0 \<and> now - lastCapture s > captureRate s \<and>
      lastCapture (fold (run_callback now) cbs s) = now) \<and>
   (capturable s \<and> captures (fold (run_callback now) cbs s) = captures s \<longrightarrow>
      lastCapture (fold (run_callback now) cbs s) = lastCapture s)"
proof (induction cbs arbitrary: s)
  case Nil
  show ?case by simp
next
  case (Cons cb cbs)
  let ?s1 = "run_callback now cb s"
  have e: "captureRate ?s1 = captureRate s" "capturable ?s1 = capturable s"
    by (simp_all add: run_callback_step)
  have a: "captures s \<le> captures ?s1 \<and> (\<not> capturable s \<longrightarrow> captures ?s1 = captures s) \<and>
      (captures s < captures ?s1 \<longrightarrow>
         captureRate s \<noteq> 0 \<and> now - lastCapture s > captureRate s \<and> lastCapture ?s1 = now) \<and>
      (capturable s \<and> captures ?s1 = captures s \<longrightarrow> lastCapture ?s1 = lastCapture s)"
    using run_callback_step [of now cb s] by simp
  note b = Cons.IH [of ?s1, unfolded e]
  have f: "fold (run_callback now) (cb # cbs) s = fold (run_callback now) cbs ?s1"
    by simp
  show ?case
    unfolding f by (rule rate_rel_trans [OF a b])
qed

lemma animation_frame_step:
  "captureRate (animation_frame now s) = captureRate s \<and>
   capturable (animation_frame now s) = capturable s \<and>
   (captures s < captures (animation_frame now s) \<longrightarrow>
      captureRate s \<noteq> 0 \<and> now - lastCapture s > captureRate s \<and>
      lastCapture (animation_frame now s) = now \<and> capturable s) \<and>
   (capturable s \<and> \<not> captures s < captures (animation_frame now s) \<longrightarrow>
      lastCapture (animation_frame now s) = lastCapture s)"
proof -
  have c: "captures (s\<lparr>raf := []\<rparr>) = captures s" "capturable (s\<lparr>raf := []\<rparr>) = capturable s"
    by (auto simp: captures_def capturable_def split: option.splits)
  from fold_callbacks_step [of "s\<lparr>raf := []\<rparr>" now "raf s"]
    fold_callbacks_frame [of now "raf s" "s\<lparr>raf := []\<rparr>"] c show ?thesis
    by (auto simp: animation_frame_def)
qed

lemma capture_ticks_spaced:
  "successively (\<lambda>a b. b - a > captureRate s) (capture_ticks nows s) \<and>
   (capture_ticks nows s \<noteq> [] \<longrightarrow>
      hd (capture_ticks nows s) - lastCapture s > captureRate s \<and> capturable s)"
proof (induction nows arbitrary: s)
  case Nil
  show ?case by simp
next
  case (Cons now nows)
  let ?s1 = "animation_frame now s"
  note st = animation_frame_step [of now s]
  note ih = Cons.IH [of ?s1]
  show ?case
  proof (cases "captures s < captures ?s1")
    case True
    with st ih show ?thesis
      by (auto simp: successively_Cons)
  next
    case False
    with st ih show ?thesis
      by auto
  qed
qed

lemma demo_sampling_eq:
  "demo_sampling = \<lparr>captureScale = 1, captureRate = 600, capturePng = False, flipped = False,
     paused = False,
     video = Some \<lparr>videoWidth = 0, videoHeight = 0,
                   attributes = [''playsinline'' \<mapsto> ''playsinline''], muted = True,
                   srcObject = Some demo_stream, play_calls = 1, playing_once = [1]\<rparr>,
     stream = Some demo_stream, canvas = Some 0, ctx = Ctx2D 0,
     lastCapture = - 1, canvases = (\<lambda>_. new_canvas), allocated = 1, root_children = [0],
     reticle = None, ended = {}, fired = [], raf = [FirstUpdate 1], loading = []\<rparr>"
  by (simp add: demo_sampling_def demo_started_def start_constructed)
    (simp add: constructed_def new_video_def)

lemma demo_ticks:
  "capture_ticks [0, 300, 600, 900, 1200, 1500] demo_sampling = [600, 1500]"
  by (simp add: demo_sampling_eq animation_frame_def update_def captureFrame_def captures_def
      getImageData_def new_canvas_def fire_def drawImage_def requestAnimationFrame_def Let_def)

text \<open>
  Claim C1. A tick of the loop fires a frame-captured event, or creates the image whose
  \<open>onload\<close> fires it, only if \<open>captureRate\<close> is not zero and the timestamp of the
  tick minus \<open>lastCapture\<close> is strictly greater than \<open>captureRate\<close>; after such a
  tick \<open>lastCapture\<close> is the timestamp of the tick. With \<open>captureRate\<close> zero no
  event is fired, neither by a tick, nor by a call of \<open>captureFrame\<close>, nor by the
  \<open>onload\<close> of an image. Hence, over a run of the loop, any two successive ticks at
  which a frame is captured are more than \<open>captureRate\<close> milliseconds apart.
\<close>

theorem capture_rate_limit:
  "(fired (update scale now s) \<noteq> fired s \<or> loading (update scale now s) \<noteq> loading s \<longrightarrow>
      captureRate s \<noteq> 0 \<and> now - lastCapture s > captureRate s \<and>
      lastCapture (update scale now s) = now) \<and>
   (captureRate s = 0 \<longrightarrow>
      fired (snd (captureFrame s)) = fired s \<and> fired (snd (image_onload img s)) = fired s \<and>
      fired (update scale now s) = fired s) \<and>
   successively (\<lambda>a b. b - a > captureRate s) (capture_ticks nows s)"
proof (intro conjI impI)
  assume "fired (update scale now s) \<noteq> fired s \<or> loading (update scale now s) \<noteq> loading s"
  then have "captures s < captures (update scale now s)"
    by (rule update_fired)
  with update_step [of scale now s]
  show "captureRate s \<noteq> 0" "now - lastCapture s > captureRate s"
    "lastCapture (update scale now s) = now"
    by simp_all
next
  assume z: "captureRate s = 0"
  then show "fired (snd (captureFrame s)) = fired s"
    by (simp add: captureFrame_effect)
  from z show "fired (snd (image_onload img s)) = fired s"
    by (simp add: image_onload_def)
  from z show "fired (update scale now s) = fired s"
    by (simp add: update_skip)
next
  show "successively (\<lambda>a b. b - a > captureRate s) (capture_ticks nows s)"
    by (simp add: capture_ticks_spaced)
qed

theorem capture_rate_limit_witness:
  "capture_ticks [0, 300, 600, 900, 1200, 1500] demo_sampling = [600, 1500] \<and>
   successively (\<lambda>a b. b - a > 600) [600, 1500 :: real] \<and>
   fired (update 1 600 demo_sampling) \<noteq> fired demo_sampling \<and>
   600 - lastCapture demo_sampling > captureRate demo_sampling \<and>
   lastCapture (update 1 600 demo_sampling) = 600 \<and>
   captureRate demo_started = 0 \<and>
   fired (snd (captureFrame demo_started)) = fired demo_started"
proof -
  have a: "fired (update 1 600 demo_sampling) \<noteq> fired demo_sampling"
    by (simp add: demo_sampling_eq update_def captureFrame_def getImageData_def new_canvas_def
        fire_def drawImage_def requestAnimationFrame_def Let_def)
  have b: "captureRate demo_started = 0"
    by (simp add: demo_started_def start_constructed) (simp add: constructed_def)
  have c: "captureRate demo_sampling = 600" "lastCapture demo_sampling = - 1"
    by (simp_all add: demo_sampling_eq)
  from capture_rate_limit [of 1 600 demo_sampling "\<lparr>src = ToDataURL new_canvas ''image/png''\<rparr>"
      "[0, 300, 600, 900, 1200, 1500]"]
    capture_rate_limit [of 1 600 demo_started "\<lparr>src = ToDataURL new_canvas ''image/png''\<rparr>" "[]"] a b c demo_ticks
  show ?thesis
    by simp
qed

section \<open>Properties of the barcode detector wrapper\<close>

lemma load_polyfill_detector:
  "detector (snd (load_polyfill injectScript cx pre m)) = detector m \<and>
   instances (snd (load_polyfill injectScript cx pre m)) = instances m"
  by (simp add: load_polyfill_def log_def Let_def)

lemma run_detector_detector:
  "detector (snd (run_detector data m)) = detector m \<and>
   instances (snd (run_detector data m)) = instances m"
  by (simp add: run_detector_def catch_detect_def log_def
      split: option.splits sum.splits prod.splits thrown.splits)

lemma make_detector_memo:
  assumes "detector m \<noteq> None" and "\<not> force"
  shows "make_detector cx force m = (None, m)"
  using assms by (auto simp: make_detector_def)

lemma make_detector_count:
  "instances (snd (make_detector cx force m)) \<le> Suc (instances m) \<and>
   (instances (snd (make_detector cx force m)) = Suc (instances m) \<longleftrightarrow>
      (detector m = None \<or> force) \<and> (\<exists>d. BarcodeDetector cx = Some (Inr d)))"
  by (auto simp: make_detector_def split: option.splits sum.splits)

lemma detect_memo:
  assumes "detector m = Some x" and "\<not> force"
  shows "detector (snd (detect injectScript data cx force pre m)) = Some x \<and>
         instances (snd (detect injectScript data cx force pre m)) = instances m"
proof -
  obtain r m1 where l: "load_polyfill injectScript cx pre m = (r, m1)"
    by (cases "load_polyfill injectScript cx pre m") auto
  with load_polyfill_detector [of injectScript cx pre m] assms
  have m1: "detector m1 = Some x" "instances m1 = instances m"
    by simp_all
  show ?thesis
  proof (cases r)
    case (Inl e)
    with l m1 show ?thesis by (simp add: detect_def)
  next
    case (Inr cx1)
    from m1 assms have "make_detector cx1 force m1 = (None, m1)"
      by (simp add: make_detector_memo)
    with Inr l m1 run_detector_detector [of data m1] show ?thesis
      by (simp add: detect_def)
  qed
qed

lemma memo_inv_same:
  assumes "memo_inv m" and "detector m' = detector m \<and> instances m' = instances m"
  shows "memo_inv m'"
  using assms by (auto simp: memo_inv_def split: option.splits)

lemma detect_unforced_inv:
  assumes "memo_inv m"
  shows "memo_inv (snd (detect injectScript data cx False pre m))"
proof (cases "detector m")
  case (Some x)
  with detect_memo [of m x False injectScript data cx pre] assms show ?thesis
    by (simp add: memo_inv_def)
next
  case None
  obtain r m1 where l: "load_polyfill injectScript cx pre m = (r, m1)"
    by (cases "load_polyfill injectScript cx pre m") auto
  with load_polyfill_detector [of injectScript cx pre m] assms None
  have m1: "detector m1 = None" "instances m1 = 0"
    by (simp_all add: memo_inv_def)
  show ?thesis
  proof (cases r)
    case (Inl e)
    with l m1 show ?thesis by (simp add: detect_def memo_inv_def)
  next
    case (Inr cx1)
    obtain e m2 where k: "make_detector cx1 False m1 = (e, m2)"
      by (cases "make_detector cx1 False m1") auto
    with m1 have "memo_inv m2"
      by (auto simp: make_detector_def memo_inv_def split: option.splits sum.splits)
    then have "memo_inv (snd (run_detector data m2))"
      using run_detector_detector [of data m2] by (rule memo_inv_same)
    with Inr l k \<open>memo_inv m2\<close> show ?thesis
      by (cases e) (simp_all add: detect_def)
  qed
qed

lemma detect_calls_inv:
  assumes "memo_inv m" and "\<forall>c \<in> set cs. \<not> call_force c"
  shows "memo_inv (detect_calls cs m)"
  using assms
proof (induction cs arbitrary: m)
  case Nil
  then show ?case by (simp add: detect_calls_def)
next
  case (Cons c cs)
  from Cons.prems have "memo_inv (detect_call c m)"
    by (simp add: detect_call_def detect_unforced_inv)
  with Cons.IH [of "detect_call c m"] Cons.prems show ?case
    by (simp add: detect_calls_def)
qed

lemma memo_inv_count: "memo_inv m \<Longrightarrow> instances m \<le> 1"
  by (auto simp: memo_inv_def split: option.splits)

lemma detect_id_inv:
  assumes "id_inv m"
  shows "id_inv (snd (detect injectScript data cx force pre m))"
proof -
  obtain r m1 where l: "load_polyfill injectScript cx pre m = (r, m1)"
    by (cases "load_polyfill injectScript cx pre m") auto
  with load_polyfill_detector [of injectScript cx pre m] assms
  have m1: "id_inv m1"
    by (auto simp: id_inv_def split: option.splits)
  show ?thesis
  proof (cases r)
    case (Inl e)
    with l m1 show ?thesis by (simp add: detect_def)
  next
    case (Inr cx1)
    obtain e m2 where k: "make_detector cx1 force m1 = (e, m2)"
      by (cases "make_detector cx1 force m1") auto
    with m1 have m2: "id_inv m2"
      by (auto simp: make_detector_def id_inv_def split: option.splits sum.splits if_splits)
    with run_detector_detector [of data m2] have "id_inv (snd (run_detector data m2))"
      by (auto simp: id_inv_def split: option.splits)
    with Inr l k m2 show ?thesis
      by (cases e) (simp_all add: detect_def)
  qed
qed

lemma detect_calls_id_inv: "id_inv m \<Longrightarrow> id_inv (detect_calls cs m)"
proof (induction cs arbitrary: m)
  case Nil
  then show ?case by (simp add: detect_calls_def)
next
  case (Cons c cs)
  from Cons.prems have "id_inv (detect_call c m)"
    by (simp add: detect_call_def detect_id_inv)
  with Cons.IH [of "detect_call c m"] show ?case
    by (simp add: detect_calls_def)
qed

lemma detect_constructs:
  assumes "load_polyfill injectScript cx pre m = (Inr cx1, m1)"
    and "BarcodeDetector cx1 = Some (Inr d)" and "detector m = None \<or> force"
  shows "detector (snd (detect injectScript data cx force pre m)) = Some (instances m, d) \<and>
         instances (snd (detect injectScript data cx force pre m)) = Suc (instances m)"
proof -
  from assms(1) load_polyfill_detector [of injectScript cx pre m]
  have m1: "detector m1 = detector m" "instances m1 = instances m"
    by simp_all
  let ?m2 = "m1\<lparr>detector := Some (instances m1, d), instances := Suc (instances m1)\<rparr>"
  from assms m1 have "make_detector cx1 force m1 = (None, ?m2)"
    by (auto simp: make_detector_def)
  with assms(1) m1 run_detector_detector [of data ?m2] show ?thesis
    by (simp add: detect_def)
qed

lemma demo_first_call:
  "detect (\<lambda>url. Inr demo_window) data demo_bare_window False [] module_loaded =
     (detector_detect demo_detector data,
      \<lparr>detector = Some (0, demo_detector), instances = 1,
        logged = [(''Native barcode detector unavailable'', WARNING, Some ''BarcodeDetector'')],
        injected = [''/lib/polyfills/barcode-detector.js'']\<rparr>)" if "data \<noteq> 0"
  using that
  by (simp add: detect_def load_polyfill_def make_detector_def run_detector_def log_def
      module_loaded_def demo_window_def demo_bare_window_def demo_detector_def Let_def)

text \<open>
  Claim C6. Over a sequence of calls of \<open>detect\<close> that starts when the module is
  loaded and in which no call forces a new detector, at most one instance is
  constructed. The first call constructs it, when the polyfill load does not reject and
  the constructor returns; a call that finds an instance and does not force keeps it
  and constructs none. A call that forces constructs an instance, under the same
  conditions, whose identity differs from that of the instance held before.
\<close>

theorem detector_memoized:
  fixes cs cs' :: "('d, 'r) detect_call list" and m :: "('d, 'r) barcode_module"
    and cx :: "('d, 'r) global_scope"
  shows
  "((\<forall>c \<in> set cs. \<not> call_force c) \<longrightarrow> instances (detect_calls cs module_loaded) \<le> 1) \<and>
   (load_polyfill injectScript cx pre module_loaded = (Inr cx1, m1) \<and>
    BarcodeDetector cx1 = Some (Inr d) \<longrightarrow>
      detector (snd (detect injectScript data cx False pre module_loaded)) = Some (0, d) \<and>
      instances (snd (detect injectScript data cx False pre module_loaded)) = 1) \<and>
   (detector m = Some x \<longrightarrow>
      detector (snd (detect injectScript data cx False pre m)) = Some x \<and>
      instances (snd (detect injectScript data cx False pre m)) = instances m) \<and>
   (m = detect_calls cs' module_loaded \<and>
    load_polyfill injectScript cx pre m = (Inr cx2, m2) \<and>
    BarcodeDetector cx2 = Some (Inr d2) \<longrightarrow>
      detector (snd (detect injectScript data cx True pre m)) = Some (instances m, d2) \<and>
      instances (snd (detect injectScript data cx True pre m)) = Suc (instances m) \<and>
      (\<forall>i d'. detector m = Some (i, d') \<longrightarrow> i \<noteq> instances m))"
proof (intro conjI impI)
  assume "\<forall>c \<in> set cs. \<not> call_force c"
  moreover have "memo_inv (module_loaded :: ('d, 'r) barcode_module)"
    by (simp add: memo_inv_def module_loaded_def)
  ultimately have "memo_inv (detect_calls cs module_loaded)"
    by (simp add: detect_calls_inv)
  then show "instances (detect_calls cs module_loaded) \<le> 1"
    by (rule memo_inv_count)
next
  assume a: "load_polyfill injectScript cx pre module_loaded = (Inr cx1, m1) \<and>
    BarcodeDetector cx1 = Some (Inr d)"
  have "detector (module_loaded :: ('d, 'r) barcode_module) = None \<or> False"
    by (simp add: module_loaded_def)
  with a detect_constructs [of injectScript cx pre module_loaded cx1 m1 d False data]
  show "detector (snd (detect injectScript data cx False pre module_loaded)) = Some (0, d)"
    "instances (snd (detect injectScript data cx False pre module_loaded)) = 1"
    by (simp_all add: module_loaded_def)
next
  assume "detector m = Some x"
  with detect_memo [of m x False injectScript data cx pre]
  show "detector (snd (detect injectScript data cx False pre m)) = Some x"
    "instances (snd (detect injectScript data cx False pre m)) = instances m"
    by simp_all
next
  assume a: "m = detect_calls cs' module_loaded \<and>
    load_polyfill injectScript cx pre m = (Inr cx2, m2) \<and>
    BarcodeDetector cx2 = Some (Inr d2)"
  then have l: "load_polyfill injectScript cx pre m = (Inr cx2, m2)"
    and b: "BarcodeDetector cx2 = Some (Inr d2)"
    by blast+
  have f: "detector m = None \<or> True"
    by simp
  from detect_constructs [OF l b f, of data]
  show "detector (snd (detect injectScript data cx True pre m)) = Some (instances m, d2)"
    "instances (snd (detect injectScript data cx True pre m)) = Suc (instances m)"
    by simp_all
  have "id_inv (module_loaded :: ('d, 'r) barcode_module)"
    by (simp add: id_inv_def module_loaded_def)
  then have "id_inv (detect_calls cs' module_loaded)"
    by (rule detect_calls_id_inv)
  with a have "id_inv m"
    by blast
  then show "\<forall>i d'. detector m = Some (i, d') \<longrightarrow> i \<noteq> instances m"
    by (auto simp: id_inv_def)
qed


theorem detector_memoized_witness:
  "instances (detect_calls [demo_call 1 False, demo_call 2 False, demo_call 0 False]
      module_loaded) = 1 \<and>
   detector (detect_calls [demo_call 1 False] module_loaded) = Some (0, demo_detector) \<and>
   detector (detect_calls [demo_call 1 False, demo_call 2 False] module_loaded) =
     Some (0, demo_detector) \<and>
   detector (detect_calls [demo_call 1 False, demo_call 2 True] module_loaded) =
     Some (1, demo_detector) \<and>
   instances (detect_calls [demo_call 1 False, demo_call 2 True] module_loaded) = 2"
proof -
  let ?l = "[(''Native barcode detector unavailable'', WARNING, Some ''BarcodeDetector'')]"
  let ?j = "[''/lib/polyfills/barcode-detector.js'']"
  let ?m0 = "module_loaded :: (nat, nat) barcode_module"
  let ?m1 = "\<lparr>detector = Some (0, demo_detector), instances = 1, logged = ?l, injected = ?j\<rparr>"
  have one: "detect_calls [demo_call 1 False] module_loaded = ?m1"
    by (simp add: detect_calls_def detect_call_def demo_call_def demo_first_call)
  have p: "load_polyfill (\<lambda>url. Inr demo_window) demo_bare_window [] ?m1 =
             (Inr demo_window, ?m1\<lparr>logged := ?l @ ?l, injected := ?j @ ?j\<rparr>)"
    by (simp add: load_polyfill_def log_def demo_bare_window_def)
  have q: "load_polyfill (\<lambda>url. Inr demo_window) demo_bare_window [] ?m0 =
             (Inr demo_window, ?m0\<lparr>logged := ?l, injected := ?j\<rparr>)"
    by (simp add: load_polyfill_def log_def demo_bare_window_def module_loaded_def)
  have w: "BarcodeDetector demo_window = Some (Inr demo_detector)"
    by (simp add: demo_window_def)
  have u: "\<forall>c \<in> set [demo_call 1 False, demo_call 2 False, demo_call 0 False]. \<not> call_force c"
    by (simp add: demo_call_def)
  note t = detector_memoized [where cs = "[demo_call 1 False, demo_call 2 False, demo_call 0 False]"
      and injectScript = "\<lambda>url. Inr demo_window" and cx = demo_bare_window and pre = "[]"
      and ?cx1.0 = demo_window and ?m1.0 = "?m0\<lparr>logged := ?l, injected := ?j\<rparr>"
      and d = demo_detector and m = ?m1 and x = "(0, demo_detector)"
      and cs' = "[demo_call 1 False]" and ?cx2.0 = demo_window
      and ?m2.0 = "?m1\<lparr>logged := ?l @ ?l, injected := ?j @ ?j\<rparr>" and ?d2.0 = demo_detector]
  have f: "detector (detect_calls [demo_call 1 False] module_loaded) = Some (0, demo_detector)"
    using t [where data = 1] q w
    by (simp add: detect_calls_def detect_call_def demo_call_def)
  have a: "detector (detect_calls [demo_call 1 False, demo_call 2 False] module_loaded) =
             Some (0, demo_detector)"
    using t [where data = 2] one
    by (simp add: detect_calls_def detect_call_def demo_call_def)
  have b: "detector (detect_calls [demo_call 1 False, demo_call 2 True] module_loaded) =
              Some (1, demo_detector) \<and>
           instances (detect_calls [demo_call 1 False, demo_call 2 True] module_loaded) = 2"
    using t [where data = 2] one p w
    by (simp add: detect_calls_def detect_call_def demo_call_def)
  have c: "instances (detect_calls [demo_call 1 False, demo_call 2 False, demo_call 0 False]
             module_loaded) \<le> 1"
    using t [where data = 0] u by blast
  have "instances (detect_calls [demo_call 2 False, demo_call 0 False] ?m1) = 1"
    by (simp add: detect_calls_def detect_call_def demo_call_def detect_def load_polyfill_def
        make_detector_def run_detector_def catch_detect_def log_def demo_window_def
        demo_bare_window_def demo_detector_def Let_def)
  with one have "instances (detect_calls [demo_call 1 False, demo_call 2 False, demo_call 0 False]
             module_loaded) = 1"
    by (simp add: detect_calls_def)
  with f a b c show ?thesis
    by simp
qed

lemma catch_detect_message:
  "catch_detect (Exception err) m =
     (Inr [], log (''Detection failed: '' @ message err) WARNING None m) \<and>
   catch_detect (ThrownValue txt) m = (Inr [], log (''Detection failed: '' @ txt) WARNING None m)"
  by (simp add: catch_detect_def)

lemma detect_failure_caught:
  assumes "load_polyfill injectScript cx pre m = (Inr cx1, m1)"
    and "make_detector cx1 force m1 = (None, m2)" and "detector m2 = Some (i, d)"
    and "\<forall>e'. isReady d \<noteq> Some (Some e')" and "detector_detect d data = Inl e"
  shows "detect injectScript data cx force pre m = catch_detect e m2"
  using assms
  by (auto simp: detect_def run_detector_def split: option.splits)

text \<open>
  Claim C7 holds for a failure that is an error object, or any value other than
  \<open>undefined\<close> and \<open>null\<close>: the call resolves to the empty list and the failure is
  logged. It fails on the code when the detector's \<open>detect\<close> throws or rejects with
  \<open>undefined\<close> or \<open>null\<close>: the \<open>catch\<close> branch reads \<open>e.message\<close>, which
  raises a \<open>TypeError\<close>, so that the promise of the wrapper is rejected and nothing
  is logged. Here the detector rejects with no reason.
\<close>

theorem detect_rejects_on_undefined:
  "fst (detect (\<lambda>url. Inr demo_rejecting_window) 5 demo_rejecting_window False []
          (module_loaded :: (nat, nat) barcode_module)) =
     Inl (Exception (TypeError ''Cannot read properties of undefined'')) \<and>
   logged (snd (detect (\<lambda>url. Inr demo_rejecting_window) 5 demo_rejecting_window False []
                  (module_loaded :: (nat, nat) barcode_module))) = []"
  by (simp add: detect_def load_polyfill_def make_detector_def run_detector_def catch_detect_def
      demo_rejecting_window_def module_loaded_def)

end
